theory Spec2Isabelle
  imports Main
begin

section \<open>The inhouse bot: scheduler, startup handler and command error handler\<close>

text \<open>
  A shallow embedding of \<^verbatim>\<open>src/inhouse_bot/inhouse_bot.py\<close>: the class
  \<^verbatim>\<open>InhouseBot\<close> with its methods \<^verbatim>\<open>background_jobs\<close>,
  \<^verbatim>\<open>on_ready\<close> and \<^verbatim>\<open>on_command_error\<close>. Effects are written out:
  the bot's state is a record that every method returns updated, and everything a method
  does to the outside (a call into \<^verbatim>\<open>game_queue\<close>, a task handed to the event
  loop, a timer, a log line) is appended to a trace in the order the source executes it.
\<close>

subsection \<open>The queue data of \<^verbatim>\<open>game_queue\<close>\<close>

type_synonym server_id = nat
type_synonym player_id = nat
type_synonym role = string

record queue_entry =
  player :: player_id
  server :: server_id
  requested_role :: role
  duo :: "player_id option"

datatype check_status = Pending | Confirmed | Cancelled

record ready_check =
  rc_server :: server_id
  rc_players :: "player_id list"
  rc_status :: check_status

datatype game_status = AwaitingResult | Scored | Voided

record game =
  g_server :: server_id
  g_players :: "player_id list"
  g_status :: game_status

text \<open>
  The module \<^verbatim>\<open>game_queue\<close> keeps one store for all servers (the source calls
  \<^verbatim>\<open>game_queue.reset_queue()\<close> and \<^verbatim>\<open>game_queue.cancel_all_ready_checks()\<close>
  on the module, with no server argument).
\<close>

record queue_state =
  entries :: "queue_entry list"
  ready_checks :: "ready_check list"
  games :: "game list"

definition queue_of :: "queue_state \<Rightarrow> server_id \<Rightarrow> queue_entry list" where
  "queue_of g sid = filter (\<lambda>e. server e = sid) (entries g)"

text \<open>
  Modelled from the spec: \<^verbatim>\<open>game_queue.reset_queue\<close> is not in the source file.
  The spec's \<^verbatim>\<open>resetQueue(serverId)\<close> "clears all entries for a server" and "does
  not affect in-progress ReadyChecks or Games". The argument is optional here because the
  source calls it with none: without a server to single out, every entry is cleared.
\<close>

definition reset_queue :: "server_id option \<Rightarrow> queue_state \<Rightarrow> queue_state" where
  "reset_queue sid g =
     (case sid of
        None \<Rightarrow> g\<lparr>entries := []\<rparr>
      | Some i \<Rightarrow> g\<lparr>entries := filter (\<lambda>e. server e \<noteq> i) (entries g)\<rparr>)"

text \<open>
  Modelled from the spec: \<^verbatim>\<open>game_queue.cancel_all_ready_checks\<close> is not in the
  source file. The spec's \<^verbatim>\<open>cancelAll()\<close> "force-transitions any active check to
  Cancelled"; the active checks are the pending ones.
\<close>

definition cancel_check :: "ready_check \<Rightarrow> ready_check" where
  "cancel_check rc = (if rc_status rc = Pending then rc\<lparr>rc_status := Cancelled\<rparr> else rc)"

definition cancel_all_ready_checks :: "queue_state \<Rightarrow> queue_state" where
  "cancel_all_ready_checks g = g\<lparr>ready_checks := map cancel_check (ready_checks g)\<rparr>"

subsection \<open>Effects\<close>

text \<open>
  Exceptions, all of them instances of \<^verbatim>\<open>Exception\<close>: the IndexError of
  \<^verbatim>\<open>self.guilds[0]\<close>, and whatever a call out of the file raises.
\<close>

datatype exn = IndexError | Failure string

text \<open>The coroutines the source builds; the server argument is \<^verbatim>\<open>None\<close> for all servers.\<close>

datatype coro =
    Update_queue_channels "server_id option"
  | Update_ranking_channels "server_id option"
  | Tournament_check server_id

text \<open>Calls that run synchronously, in the thread of the caller.\<close>

datatype direct_call = Reset_queue | Cancel_all_ready_checks

text \<open>
  \<open>Direct\<close> and \<open>Await\<close> record that the call was made, \<open>Create_task\<close> that the
  task was created, \<open>Timer_start\<close> that a timer was started and \<open>Timer_fired\<close> that
  a started timer ran out and its thread began \<^verbatim>\<open>background_jobs\<close>.
\<close>

datatype event =
    Log_info
  | Log_error exn
  | Direct direct_call
  | Create_task coro
  | Await coro
  | Timer_start
  | Timer_fired

record bot =
  guilds :: "server_id list"
  job_counter :: int
  queue :: queue_state
  trace :: "event list"

definition emit :: "event \<Rightarrow> bot \<Rightarrow> bot" where
  "emit e s = s\<lparr>trace := trace s @ [e]\<rparr>"

subsection \<open>Configuration and wall-clock time\<close>

text \<open>
  The constants of \<^verbatim>\<open>common_utils.constants\<close> and the function
  \<^verbatim>\<open>get_server_config_by_key\<close> are imported by the source and not defined in it:
  they are parameters. The configuration lookup reads a database, so it may raise
  (\<open>Inl\<close>); its value is used only for its truth value. Every other call out of the
  file may raise as well: the last four fields say, for the moment at which a method runs,
  which of them do (\<open>None\<close>: the call returns).
\<close>

record env =
  INHOUSE_BOT_TOURNAMENTS :: bool
  QUEUE_RESET_TIME :: string
  PREFIX :: string
  get_server_config_by_key :: "server_id \<Rightarrow> string \<Rightarrow> exn + bool"
  reset_queue_raises :: "exn option"
  create_task_raises :: "coro \<Rightarrow> exn option"
  cancel_all_ready_checks_raises :: "exn option"
  await_raises :: "coro \<Rightarrow> exn option"

record datetime =
  hour :: nat
  minute :: nat
  second :: nat

definition digit :: "nat \<Rightarrow> char" where
  "digit d = ''0123456789'' ! (d mod 10)"

definition two_digits :: "nat \<Rightarrow> string" where
  "two_digits n = [digit (n div 10), digit n]"

text \<open>\<^verbatim>\<open>now.strftime("%H:%M")\<close>: hour and minute, zero padded, for a time of day.\<close>

definition strftime_HM :: "datetime \<Rightarrow> string" where
  "strftime_HM t = two_digits (hour t) @ '':'' @ two_digits (minute t)"

subsection \<open>The scheduler tick: \<^verbatim>\<open>background_jobs\<close>\<close>

text \<open>
  Statements in sequence: the second runs on the state the first left, unless the first
  raised; then the exception and the state reached at that point are the result.
\<close>

definition and_then ::
  "exn option \<times> bot \<Rightarrow> (bot \<Rightarrow> exn option \<times> bot) \<Rightarrow> exn option \<times> bot" where
  "and_then r f = (case fst r of None \<Rightarrow> f (snd r) | Some e \<Rightarrow> r)"

text \<open>
  \<^verbatim>\<open>game_queue.reset_queue()\<close>, called in the thread that runs the tick. A call that
  raises is taken to leave the store as it was.
\<close>

definition call_reset_queue :: "env \<Rightarrow> bot \<Rightarrow> exn option \<times> bot" where
  "call_reset_queue ev s =
     (let s1 = emit (Direct Reset_queue) s
      in case reset_queue_raises ev of
           Some e \<Rightarrow> (Some e, s1)
         | None \<Rightarrow> (None, s1\<lparr>queue := reset_queue None (queue s1)\<rparr>))"

text \<open>\<^verbatim>\<open>self.loop.create_task(...)\<close>: the coroutine is handed to the event loop.\<close>

definition create_task :: "env \<Rightarrow> coro \<Rightarrow> bot \<Rightarrow> exn option \<times> bot" where
  "create_task ev c s =
     (case create_task_raises ev c of
        Some e \<Rightarrow> (Some e, s)
      | None \<Rightarrow> (None, emit (Create_task c) s))"

text \<open>
  The body of the \<^verbatim>\<open>try\<close> statement. It returns the exception it raised, if any,
  with the state reached at that point: \<^verbatim>\<open>self.guilds[0]\<close> raises IndexError on an
  empty list, and the configuration lookup, the reset and either \<^verbatim>\<open>create_task\<close>
  may raise. The counter is a Python integer, never negative here, so \<open>mod\<close> on
  \<open>int\<close> is Python's \<^verbatim>\<open>%\<close>.
\<close>

definition try_block :: "env \<Rightarrow> datetime \<Rightarrow> bot \<Rightarrow> exn option \<times> bot" where
  "try_block ev now s =
     (case guilds s of
        [] \<Rightarrow> (Some IndexError, s)
      | g0 # _ \<Rightarrow>
          (case get_server_config_by_key ev g0 ''queue_reset'' of
             Inl e \<Rightarrow> (Some e, s)
           | Inr queue_reset \<Rightarrow>
               and_then
                 (if strftime_HM now = QUEUE_RESET_TIME ev then
                    (if queue_reset then
                       and_then (call_reset_queue ev s)
                         (create_task ev (Update_queue_channels None))
                     else (None, s))
                  else (None, s))
                 (\<lambda>s1. if INHOUSE_BOT_TOURNAMENTS ev \<and> job_counter s1 mod 5 = 0 then
                         create_task ev (Tournament_check g0) s1
                       else (None, s1))))"

text \<open>\<^verbatim>\<open>except Exception as e: logging.error(...)\<close>: the exception is logged and dropped.\<close>

definition except_clause :: "exn option \<times> bot \<Rightarrow> exn option \<times> bot" where
  "except_clause r =
     (case fst r of
        None \<Rightarrow> r
      | Some e \<Rightarrow> (None, emit (Log_error e) (snd r)))"

text \<open>
  \<^verbatim>\<open>finally\<close>: the counter goes up and the next tick is scheduled, whatever happened
  before; an exception still pending is passed on. Starting the timer is taken to succeed.
\<close>

definition finally_clause :: "exn option \<times> bot \<Rightarrow> exn option \<times> bot" where
  "finally_clause r =
     (fst r, emit Timer_start ((snd r)\<lparr>job_counter := job_counter (snd r) + 1\<rparr>))"

definition background_jobs :: "env \<Rightarrow> datetime \<Rightarrow> bot \<Rightarrow> exn option \<times> bot" where
  "background_jobs ev now s = finally_clause (except_clause (try_block ev now s))"

text \<open>
  The timer chain. \<^verbatim>\<open>threading.Timer(BACKGROUND_JOBS_INTERVAL, self.background_jobs)\<close>
  runs the next tick once, in a thread of its own; the list gives, for each successive
  timer that fires, the configuration the tick finds and the wall-clock time it reads. A
  tick that started no timer ends the chain.
\<close>

definition timers :: "bot \<Rightarrow> nat" where
  "timers s = length (filter (\<lambda>e. e = Timer_start) (trace s))"

definition timers_fired :: "bot \<Rightarrow> nat" where
  "timers_fired s = length (filter (\<lambda>e. e = Timer_fired) (trace s))"

text \<open>
  The timers started and not yet run out, counted over the trace. Nothing in the source
  cancels a timer, so the model has no event that takes one away but its firing.
\<close>

definition pending_timers :: "bot \<Rightarrow> int" where
  "pending_timers s = int (timers s) - int (timers_fired s)"

definition timer_fires :: "env \<Rightarrow> datetime \<Rightarrow> bot \<Rightarrow> exn option \<times> bot" where
  "timer_fires ev now s = background_jobs ev now (emit Timer_fired s)"

fun run_ticks :: "(env \<times> datetime) list \<Rightarrow> bot \<Rightarrow> bot" where
  "run_ticks [] s = s"
| "run_ticks ((ev, now) # later) s =
     (let s' = snd (timer_fires ev now s)
      in if timers s < timers s' then run_ticks later s' else s')"

text \<open>The number of ticks of such a chain that run.\<close>

fun ticks_run :: "(env \<times> datetime) list \<Rightarrow> bot \<Rightarrow> nat" where
  "ticks_run [] s = 0"
| "ticks_run ((ev, now) # later) s =
     (let s' = snd (timer_fires ev now s)
      in if timers s < timers s' then Suc (ticks_run later s') else 1)"

text \<open>What a stretch of the trace says: calls of the reset, polls handed to the loop.\<close>

definition resets :: "event list \<Rightarrow> nat" where
  "resets evs = length (filter (\<lambda>e. e = Direct Reset_queue) evs)"

fun is_poll :: "event \<Rightarrow> bool" where
  "is_poll (Create_task (Tournament_check _)) = True"
| "is_poll _ = False"

definition polls :: "event list \<Rightarrow> event list" where
  "polls evs = filter is_poll evs"

text \<open>The events one call appended to the trace.\<close>

definition new_events :: "bot \<Rightarrow> bot \<Rightarrow> event list" where
  "new_events s s' = drop (length (trace s)) (trace s')"

subsection \<open>Startup: \<^verbatim>\<open>on_ready\<close>\<close>

text \<open>
  \<^verbatim>\<open>game_queue.cancel_all_ready_checks()\<close>, called where the handler runs. A call
  that raises is taken to leave the store as it was.
\<close>

definition call_cancel_all_ready_checks :: "env \<Rightarrow> bot \<Rightarrow> exn option \<times> bot" where
  "call_cancel_all_ready_checks ev s =
     (let s1 = emit (Direct Cancel_all_ready_checks) s
      in case cancel_all_ready_checks_raises ev of
           Some e \<Rightarrow> (Some e, s1)
         | None \<Rightarrow> (None, s1\<lparr>queue := cancel_all_ready_checks (queue s1)\<rparr>))"

text \<open>
  An awaited channel update. It renders messages and leaves the queue data alone; it may
  raise, and the exception then leaves the handler.
\<close>

definition await :: "env \<Rightarrow> coro \<Rightarrow> bot \<Rightarrow> exn option \<times> bot" where
  "await ev c s =
     (let s1 = emit (Await c) s
      in case await_raises ev c of Some e \<Rightarrow> (Some e, s1) | None \<Rightarrow> (None, s1))"

text \<open>
  The handler has no \<^verbatim>\<open>try\<close>: the first statement that raises ends it. The last
  statement runs the first tick where the handler itself runs, on the event loop.
\<close>

definition on_ready :: "env \<Rightarrow> datetime \<Rightarrow> bot \<Rightarrow> exn option \<times> bot" where
  "on_ready ev now s =
     and_then (None, emit Log_info s) (\<lambda>s1.
     and_then (call_cancel_all_ready_checks ev s1) (\<lambda>s2.
     and_then (await ev (Update_queue_channels None) s2) (\<lambda>s3.
     and_then (await ev (Update_ranking_channels None) s3) (\<lambda>s4.
     background_jobs ev now s4))))"

subsection \<open>The command error handler: \<^verbatim>\<open>on_command_error\<close>\<close>

text \<open>
  The exception classes the handler tests with \<^verbatim>\<open>isinstance\<close>, none a subclass
  of another. \<open>AlreadyQueued\<close> is the spec's name for a failure the handler has no branch
  for; \<open>Other_exception\<close> stands for every class the handler does not name.
\<close>

datatype exc_class =
    CommandNotFound
  | MissingRequiredArgument
  | ConversionError
  | NoPrivateMessage
  | QueueChannelsOnly
  | SameRolesForDuo
  | AdminGroupOnly
  | PlayerInGame
  | PlayerInReadyCheck
  | AlreadyQueued
  | Other_exception

text \<open>
  The error the handler receives: an exception of some class, or a
  \<^verbatim>\<open>commands.CommandInvokeError\<close> whose \<^verbatim>\<open>original\<close> is of that class.
\<close>

datatype command_error = Raised exc_class | CommandInvokeError exc_class

record message =
  content :: string
  delete_after :: "nat option"

record ctx =
  invoked_with :: string

datatype reply = Send message | Log_exception exc_class

definition send :: "string \<Rightarrow> reply" where
  "send txt = Send \<lparr>content = txt, delete_after = None\<rparr>"

definition newline :: string where
  "newline = [CHR 0x0A]"

definition generic_error_text :: "env \<Rightarrow> string" where
  "generic_error_text ev =
     ''There was an error processing the command'' @ newline @
     ''Use '' @ PREFIX ev @ ''help for the commands list or post in #inhouse for bugs''"

definition player_in_game_text :: "env \<Rightarrow> string" where
  "player_in_game_text ev =
     ''Your last game was not scored and you are not allowed to queue at the moment.'' @ newline @
     (if INHOUSE_BOT_TOURNAMENTS ev
      then ''The game will automatically be scored shortly after it ends, ''
      else ''One of the winners can score the game with `'' @ PREFIX ev @ ''won`, '') @
     ''or players can agree to cancel it with `'' @ PREFIX ev @ ''cancel`''"

definition player_in_ready_check_text :: "env \<Rightarrow> string" where
  "player_in_ready_check_text ev =
     ''A game has already been found for you and you cannot queue until it is accepted or cancelled'' @ newline @
     ''If it is a bug, post in #inhouse and ask them to use `'' @ PREFIX ev @ ''admin reset` with your name''"

fun on_command_error :: "env \<Rightarrow> ctx \<Rightarrow> command_error \<Rightarrow> reply list" where
  "on_command_error ev cx (Raised CommandNotFound) =
     [send (''Command `'' @ invoked_with cx @ ''` not found, use '' @ PREFIX ev @
            ''help to see the commands list'')]"
| "on_command_error ev cx (Raised MissingRequiredArgument) =
     [send (''Arguments missing, use `'' @ PREFIX ev @ ''help '' @ invoked_with cx @
            ''` to see the arguments list'')]"
| "on_command_error ev cx (Raised ConversionError) = []"
| "on_command_error ev cx (Raised NoPrivateMessage) =
     [send ''This command can only be used inside a server'']"
| "on_command_error ev cx (Raised QueueChannelsOnly) =
     [send ''This command can only be used in a channel marked as a queue by an admin'']"
| "on_command_error ev cx (Raised SameRolesForDuo) =
     [send ''Duos must have different roles'']"
| "on_command_error ev cx (Raised AdminGroupOnly) =
     [send ''Only admins can use this command'']"
| "on_command_error ev cx (CommandInvokeError og_error) =
     (if og_error = PlayerInGame then
        [Send \<lparr>content = player_in_game_text ev, delete_after = Some 20\<rparr>]
      else if og_error = PlayerInReadyCheck then
        [Send \<lparr>content = player_in_ready_check_text ev, delete_after = Some 20\<rparr>]
      else [send (generic_error_text ev), Log_exception og_error])"
| "on_command_error ev cx (Raised c) = [send (generic_error_text ev), Log_exception c]"

fun is_send :: "reply \<Rightarrow> bool" where
  "is_send (Send _) = True"
| "is_send _ = False"

definition sent :: "reply list \<Rightarrow> reply list" where
  "sent rs = filter is_send rs"

subsection \<open>The queue operations behind the commands\<close>


definition in_unscored_game :: "queue_state \<Rightarrow> server_id \<Rightarrow> player_id \<Rightarrow> bool" where
  "in_unscored_game g sid p =
     list_ex (\<lambda>x. g_server x = sid \<and> g_status x = AwaitingResult \<and> p \<in> set (g_players x))
       (games g)"

definition in_pending_check :: "queue_state \<Rightarrow> server_id \<Rightarrow> player_id \<Rightarrow> bool" where
  "in_pending_check g sid p =
     list_ex (\<lambda>x. rc_server x = sid \<and> rc_status x = Pending \<and> p \<in> set (rc_players x))
       (ready_checks g)"


definition queued :: "queue_state \<Rightarrow> server_id \<Rightarrow> player_id \<Rightarrow> bool" where
  "queued g sid p = list_ex (\<lambda>e. server e = sid \<and> player e = p) (entries g)"

text \<open>
  Modelled from the spec: the checks of \<^verbatim>\<open>join\<close>, "fails with AlreadyQueued if
  player has an active entry; fails with PlayerBarred if player is a participant of an
  AwaitingResult game or a Pending ReadyCheck for that server". The spec gives no order
  between the two failures, and a player can meet both conditions (a participant of a
  pending ready-check still holds a queue entry). The order is therefore a parameter:
  \<open>Queued_first\<close> is the order in which the spec lists the checks, \<open>Bar_first\<close> the
  other one.
\<close>

datatype check_order = Queued_first | Bar_first

definition bar_check :: "queue_state \<Rightarrow> server_id \<Rightarrow> player_id \<Rightarrow> exc_class option" where
  "bar_check g sid p =
     (if in_unscored_game g sid p then Some PlayerInGame
      else if in_pending_check g sid p then Some PlayerInReadyCheck
      else None)"

definition queued_check :: "queue_state \<Rightarrow> server_id \<Rightarrow> player_id \<Rightarrow> exc_class option" where
  "queued_check g sid p = (if queued g sid p then Some AlreadyQueued else None)"

definition first_failure :: "exc_class option \<Rightarrow> exc_class option \<Rightarrow> exc_class option" where
  "first_failure a b = (case a of Some c \<Rightarrow> Some c | None \<Rightarrow> b)"

definition join_check ::
  "check_order \<Rightarrow> queue_state \<Rightarrow> server_id \<Rightarrow> player_id \<Rightarrow> exc_class option" where
  "join_check ord g sid p =
     (case ord of
        Queued_first \<Rightarrow> first_failure (queued_check g sid p) (bar_check g sid p)
      | Bar_first \<Rightarrow> first_failure (bar_check g sid p) (queued_check g sid p))"


text \<open>
  Modelled from the spec: \<^verbatim>\<open>joinDuo(serverId, playerA, roleA, playerB, roleB)\<close>
  "fails with SameRolesForDuo if roleA == roleB; same barring/duplicate checks as join for
  both players; links are created atomically (both entries inserted, or neither)".
\<close>

definition join_duo ::
  "check_order \<Rightarrow> server_id \<Rightarrow> player_id \<Rightarrow> role \<Rightarrow> player_id \<Rightarrow> role \<Rightarrow> queue_state \<Rightarrow>
     exc_class + queue_state" where
  "join_duo ord sid pa ra pb rb g =
     (if ra = rb then Inl SameRolesForDuo
      else
        (case join_check ord g sid pa of
           Some c \<Rightarrow> Inl c
         | None \<Rightarrow>
             (case join_check ord g sid pb of
                Some c \<Rightarrow> Inl c
              | None \<Rightarrow>
                  Inr (g\<lparr>entries := entries g @
                         [\<lparr>player = pa, server = sid, requested_role = ra, duo = Some pb\<rparr>,
                          \<lparr>player = pb, server = sid, requested_role = rb, duo = Some pa\<rparr>]\<rparr>))))"

text \<open>
  How an exception raised inside a command reaches \<^verbatim>\<open>on_command_error\<close>, read off
  the handler's branches: the classes it tests on the error itself arrive as they are, the
  ones it tests on \<^verbatim>\<open>error.original\<close> arrive wrapped in a CommandInvokeError, as
  does every exception that is not a command error.
\<close>

definition deliver :: "exc_class \<Rightarrow> command_error" where
  "deliver c =
     (if c \<in> {PlayerInGame, PlayerInReadyCheck, AlreadyQueued, Other_exception}
      then CommandInvokeError c else Raised c)"

text \<open>
  A command that runs a queue operation: on success the store is replaced and nothing is
  said; on failure the store is the one before and the handler answers the caller.
\<close>

definition run_command ::
  "env \<Rightarrow> ctx \<Rightarrow> (queue_state \<Rightarrow> exc_class + queue_state) \<Rightarrow> bot \<Rightarrow> bot \<times> reply list" where
  "run_command ev cx op s =
     (case op (queue s) of
        Inr g' \<Rightarrow> (s\<lparr>queue := g'\<rparr>, [])
      | Inl c \<Rightarrow> (s, on_command_error ev cx (deliver c)))"

subsection \<open>Reading a tick off the source\<close>

text \<open>
  The first statement of the \<^verbatim>\<open>try\<close> block on its own: the value of
  \<^verbatim>\<open>get_server_config_by_key(server_id=self.guilds[0].id, key="queue_reset")\<close>,
  or the exception it raises.
\<close>

definition queue_reset_config :: "env \<Rightarrow> bot \<Rightarrow> exn + bool" where
  "queue_reset_config ev s =
     (case guilds s of
        [] \<Rightarrow> Inl IndexError
      | g0 # _ \<Rightarrow> get_server_config_by_key ev g0 ''queue_reset'')"

text \<open>
  The events of one tick before its timer is started, as a function of what the tick
  reads and of which calls raise; \<open>background_jobs_trace\<close> below proves that this is
  what the tick appends.
\<close>

definition poll_work :: "env \<Rightarrow> bot \<Rightarrow> event list" where
  "poll_work ev s =
     (if INHOUSE_BOT_TOURNAMENTS ev \<and> job_counter s mod 5 = 0 then
        (case create_task_raises ev (Tournament_check (hd (guilds s))) of
           Some e \<Rightarrow> [Log_error e]
         | None \<Rightarrow> [Create_task (Tournament_check (hd (guilds s)))])
      else [])"

definition tick_work :: "env \<Rightarrow> datetime \<Rightarrow> bot \<Rightarrow> event list" where
  "tick_work ev now s =
     (case queue_reset_config ev s of
        Inl e \<Rightarrow> [Log_error e]
      | Inr b \<Rightarrow>
          (if strftime_HM now = QUEUE_RESET_TIME ev \<and> b then
             Direct Reset_queue #
               (case reset_queue_raises ev of
                  Some e \<Rightarrow> [Log_error e]
                | None \<Rightarrow>
                    (case create_task_raises ev (Update_queue_channels None) of
                       Some e \<Rightarrow> [Log_error e]
                     | None \<Rightarrow> Create_task (Update_queue_channels None) # poll_work ev s))
           else poll_work ev s))"

text \<open>Whether the \<^verbatim>\<open>try\<close> block of a tick runs through, from what the tick reads.\<close>

definition runs_through :: "env \<Rightarrow> datetime \<Rightarrow> bot \<Rightarrow> bool" where
  "runs_through ev now s =
     (case queue_reset_config ev s of
        Inl e \<Rightarrow> False
      | Inr b \<Rightarrow>
          (if strftime_HM now = QUEUE_RESET_TIME ev \<and> b then
             reset_queue_raises ev = None \<and>
             create_task_raises ev (Update_queue_channels None) = None
           else True) \<and>
          (if INHOUSE_BOT_TOURNAMENTS ev \<and> job_counter s mod 5 = 0 then
             create_task_raises ev (Tournament_check (hd (guilds s))) = None
           else True))"

text \<open>
  The handler \<^verbatim>\<open>on_ready\<close> read the same way: whether the three calls before the
  first tick return, and the state in which that tick then runs.
\<close>

definition on_ready_ok :: "env \<Rightarrow> bool" where
  "on_ready_ok ev =
     (cancel_all_ready_checks_raises ev = None \<and>
      await_raises ev (Update_queue_channels None) = None \<and>
      await_raises ev (Update_ranking_channels None) = None)"

definition before_first_tick :: "bot \<Rightarrow> bot" where
  "before_first_tick s =
     emit (Await (Update_ranking_channels None))
       (emit (Await (Update_queue_channels None))
          ((emit (Direct Cancel_all_ready_checks) (emit Log_info s))
             \<lparr>queue := cancel_all_ready_checks (queue s)\<rparr>))"

subsection \<open>Concrete configurations for the examples\<close>

text \<open>
  Two servers, 1 and 2, each with one queued player; the reset time is 03:00; queue
  reset is enabled on exactly one server, named by the first argument of \<open>env_only\<close>
  (the second switches tournaments on).
\<close>

definition entry1 :: queue_entry where
  "entry1 = \<lparr>player = 10, server = 1, requested_role = ''top'', duo = None\<rparr>"

definition entry2 :: queue_entry where
  "entry2 = \<lparr>player = 20, server = 2, requested_role = ''mid'', duo = None\<rparr>"

definition two_guilds :: bot where
  "two_guilds =
     \<lparr>guilds = [1, 2], job_counter = 0,
      queue = \<lparr>entries = [entry1, entry2], ready_checks = [], games = []\<rparr>,
      trace = []\<rparr>"

definition no_guilds :: bot where
  "no_guilds =
     \<lparr>guilds = [], job_counter = 0,
      queue = \<lparr>entries = [], ready_checks = [], games = []\<rparr>,
      trace = []\<rparr>"

definition env_only :: "server_id \<Rightarrow> bool \<Rightarrow> env" where
  "env_only sid t =
     \<lparr>INHOUSE_BOT_TOURNAMENTS = t, QUEUE_RESET_TIME = ''03:00'', PREFIX = ''!'',
      get_server_config_by_key = (\<lambda>i k. Inr (i = sid \<and> k = ''queue_reset'')),
      reset_queue_raises = None, create_task_raises = (\<lambda>c. None),
      cancel_all_ready_checks_raises = None, await_raises = (\<lambda>c. None)\<rparr>"

text \<open>The same with tournaments on, reset enabled on server 1 and a reset that raises.\<close>

definition env_reset_fails :: env where
  "env_reset_fails = (env_only 1 True)\<lparr>reset_queue_raises := Some (Failure ''db down'')\<rparr>"

definition at_reset :: "nat \<Rightarrow> datetime" where
  "at_reset sec = \<lparr>hour = 3, minute = 0, second = sec\<rparr>"

definition noon :: datetime where
  "noon = \<lparr>hour = 12, minute = 0, second = 0\<rparr>"

text \<open>Four timers that fire at noon, with nothing raising.\<close>

definition four_ticks :: "(env \<times> datetime) list" where
  "four_ticks = [(env_only 1 True, noon), (env_only 1 True, noon),
                 (env_only 1 True, noon), (env_only 1 True, noon)]"

text \<open>
  One server whose store holds a game awaiting its result (players 10 and 11) and a
  pending ready-check (players 30 and 31); the participants of the ready-check hold their
  queue entries.
\<close>

definition entry30 :: queue_entry where
  "entry30 = \<lparr>player = 30, server = 1, requested_role = ''top'', duo = None\<rparr>"

definition entry31 :: queue_entry where
  "entry31 = \<lparr>player = 31, server = 1, requested_role = ''jungle'', duo = None\<rparr>"

definition barred_store :: queue_state where
  "barred_store =
     \<lparr>entries = [entry30, entry31],
      ready_checks = [\<lparr>rc_server = 1, rc_players = [30, 31], rc_status = Pending\<rparr>],
      games = [\<lparr>g_server = 1, g_players = [10, 11], g_status = AwaitingResult\<rparr>]\<rparr>"

definition barred_bot :: bot where
  "barred_bot = \<lparr>guilds = [1], job_counter = 7, queue = barred_store, trace = []\<rparr>"

section \<open>Properties\<close>

subsection \<open>What a tick does to the state\<close>

lemma trace_emit: "trace (emit e s) = trace s @ [e]"
  by (simp add: emit_def)

lemma job_counter_emit: "job_counter (emit e s) = job_counter s"
  by (simp add: emit_def)

lemma guilds_emit: "guilds (emit e s) = guilds s"
  by (simp add: emit_def)

lemmas tick_defs = try_block_def and_then_def call_reset_queue_def create_task_def
  except_clause_def finally_clause_def background_jobs_def emit_def Let_def

lemma background_jobs_fst: "fst (background_jobs ev now s) = None"
  by (simp add: background_jobs_def finally_clause_def except_clause_def split: option.splits)

lemma background_jobs_counter:
  "job_counter (snd (background_jobs ev now s)) = job_counter s + 1"
  by (simp add: tick_defs split: list.splits sum.splits option.splits)

lemma background_jobs_guilds: "guilds (snd (background_jobs ev now s)) = guilds s"
  by (simp add: tick_defs split: list.splits sum.splits option.splits)

lemma background_jobs_ready_checks:
  "ready_checks (queue (snd (background_jobs ev now s))) = ready_checks (queue s)"
  by (simp add: tick_defs reset_queue_def split: list.splits sum.splits option.splits)

lemma background_jobs_trace:
  "trace (snd (background_jobs ev now s)) = trace s @ tick_work ev now s @ [Timer_start]"
  by (auto simp: tick_defs tick_work_def poll_work_def queue_reset_config_def
      split: list.splits sum.splits option.splits)

lemma try_block_runs_through: "(fst (try_block ev now s) = None) = runs_through ev now s"
  by (auto simp: tick_defs runs_through_def queue_reset_config_def
      split: list.splits sum.splits option.splits)

lemma try_block_logged:
  "fst (try_block ev now s) = Some e \<Longrightarrow> Log_error e \<in> set (tick_work ev now s)"
  by (auto simp: tick_defs tick_work_def poll_work_def queue_reset_config_def
      split: list.splits sum.splits option.splits if_splits)

lemma new_events_tick:
  "new_events s (snd (background_jobs ev now s)) = tick_work ev now s @ [Timer_start]"
  by (simp add: new_events_def background_jobs_trace)

lemma timer_not_in_work: "Timer_start \<notin> set (tick_work ev now s)"
  by (simp add: tick_work_def poll_work_def split: sum.splits option.splits)

lemma fired_not_in_work: "Timer_fired \<notin> set (tick_work ev now s)"
  by (simp add: tick_work_def poll_work_def split: sum.splits option.splits)

lemma cancel_not_in_work: "Direct Cancel_all_ready_checks \<notin> set (tick_work ev now s)"
  by (simp add: tick_work_def poll_work_def split: sum.splits option.splits)

lemma timers_tick: "timers (snd (background_jobs ev now s)) = Suc (timers s)"
proof -
  have "filter (\<lambda>e. e = Timer_start) (tick_work ev now s) = []"
    using timer_not_in_work [of ev now s] by (auto simp: filter_empty_conv)
  then show ?thesis by (simp add: timers_def background_jobs_trace)
qed

lemma timers_fired_tick: "timers_fired (snd (background_jobs ev now s)) = timers_fired s"
proof -
  have "filter (\<lambda>e. e = Timer_fired) (tick_work ev now s) = []"
    using fired_not_in_work [of ev now s] by (auto simp: filter_empty_conv)
  then show ?thesis by (simp add: timers_fired_def background_jobs_trace)
qed

lemma timers_emit_fired: "timers (emit Timer_fired s) = timers s"
  by (simp add: timers_def emit_def)

lemma timers_timer_fires: "timers (snd (timer_fires ev now s)) = Suc (timers s)"
  by (simp add: timer_fires_def timers_tick timers_emit_fired)

lemma counter_timer_fires:
  "job_counter (snd (timer_fires ev now s)) = job_counter s + 1"
  by (simp add: timer_fires_def background_jobs_counter job_counter_emit)

lemma timers_fired_emit_fired: "timers_fired (emit Timer_fired s) = Suc (timers_fired s)"
  by (simp add: timers_fired_def emit_def)

lemma pending_timer_fires: "pending_timers (snd (timer_fires ev now s)) = pending_timers s"
  by (simp add: pending_timers_def timer_fires_def timers_tick timers_fired_tick
      timers_emit_fired timers_fired_emit_fired)

lemma pending_tick: "pending_timers (snd (background_jobs ev now s)) = pending_timers s + 1"
  by (simp add: pending_timers_def timers_tick timers_fired_tick)

lemma ticks_run_all: "ticks_run fired s = length fired"
  by (induction fired s rule: ticks_run.induct) (simp_all add: Let_def timers_timer_fires)

lemma run_ticks_counter:
  "job_counter (run_ticks fired s) = job_counter s + int (length fired)"
  by (induction fired s rule: run_ticks.induct)
    (simp_all add: Let_def timers_timer_fires counter_timer_fires)

lemma polls_tick:
  "(polls (new_events s (snd (background_jobs ev now s))) \<noteq> []) =
     (INHOUSE_BOT_TOURNAMENTS ev \<and> fst (try_block ev now s) = None \<and> job_counter s mod 5 = 0)"
  by (auto simp: new_events_tick polls_def tick_work_def poll_work_def try_block_runs_through
      runs_through_def split: sum.splits option.splits)

lemma strftime_at_reset: "strftime_HM (at_reset n) = ''03:00''"
  by (simp add: strftime_HM_def at_reset_def two_digits_def digit_def)

lemmas eval_defs =
  new_events_def resets_def polls_def queue_of_def two_guilds_def no_guilds_def
  entry1_def entry2_def env_only_def env_reset_fails_def tick_defs reset_queue_def timers_def
  timer_fires_def

subsection \<open>The scheduler\<close>

text \<open>
  C1. The claim: on a tick at the reset time the queue of every server with reset enabled
  is emptied, and no server with reset disabled loses its queue. The tick reads the
  setting of the first guild only and resets without naming a server. Evaluated on two
  servers at the reset time: with reset enabled on server 2 alone (the second guild) the
  tick performs no reset and server 2 keeps its entry; with reset enabled on server 1
  alone the queue of server 2, whose reset is disabled, is emptied.
\<close>

theorem first_guild_decides_reset:
  "queue_of (queue two_guilds) 2 = [entry2] \<and>
   strftime_HM (at_reset 5) = QUEUE_RESET_TIME (env_only 2 True) \<and>
   get_server_config_by_key (env_only 2 True) 2 ''queue_reset'' = Inr True \<and>
   resets (new_events two_guilds
     (snd (background_jobs (env_only 2 True) (at_reset 5) two_guilds))) = 0 \<and>
   queue_of (queue (snd (background_jobs (env_only 2 True) (at_reset 5) two_guilds))) 2 =
     [entry2] \<and>
   get_server_config_by_key (env_only 1 True) 2 ''queue_reset'' = Inr False \<and>
   queue_of (queue (snd (background_jobs (env_only 1 True) (at_reset 5) two_guilds))) 2 = []"
  by (simp add: eval_defs strftime_at_reset)

text \<open>
  C2. The claim: a tick applies no mutation of the queue itself; every mutation goes
  through the event loop. Evaluated at the reset time with reset enabled on the first
  guild: the tick calls \<^verbatim>\<open>game_queue.reset_queue()\<close> directly, so the store is
  already empty when the tick returns, and only the channel update is handed to the loop.
\<close>

theorem reset_applied_in_scheduler_thread:
  "entries (queue two_guilds) = [entry1, entry2] \<and>
   new_events two_guilds (snd (background_jobs (env_only 1 False) (at_reset 5) two_guilds)) =
     [Direct Reset_queue, Create_task (Update_queue_channels None), Timer_start] \<and>
   entries (queue (snd (background_jobs (env_only 1 False) (at_reset 5) two_guilds))) = []"
  by (simp add: eval_defs strftime_at_reset)

text \<open>
  C3, as stated: within one minute that matches the reset time the reset fires at most
  once, however many ticks fall inside it. Two ticks at 03:00:05 and 03:00:35 both
  reset.
\<close>

theorem double_reset_within_minute:
  "strftime_HM (at_reset 5) = QUEUE_RESET_TIME (env_only 1 False) \<and>
   strftime_HM (at_reset 35) = strftime_HM (at_reset 5) \<and>
   resets (new_events two_guilds
     (run_ticks [(env_only 1 False, at_reset 5), (env_only 1 False, at_reset 35)]
        two_guilds)) = 2"
  by (simp add: eval_defs strftime_at_reset)

text \<open>
  C3, amended: one tick performs the reset at most once. Nothing records that a reset
  has happened: a following tick that reads the same hour and minute performs it exactly
  as often as the tick before it did.
\<close>

theorem reset_at_most_once_per_tick:
  "resets (new_events s (snd (background_jobs ev now s))) \<le> 1 \<and>
   (strftime_HM now' = strftime_HM now \<longrightarrow>
      resets (new_events (snd (background_jobs ev now s))
                (snd (background_jobs ev now' (snd (background_jobs ev now s))))) =
      resets (new_events s (snd (background_jobs ev now s))))"
  by (simp add: new_events_tick resets_def tick_work_def poll_work_def queue_reset_config_def
      background_jobs_guilds split: sum.splits option.splits)

theorem reset_at_most_once_per_tick_witness:
  "strftime_HM (at_reset 35) = strftime_HM (at_reset 5) \<and>
   resets (new_events (snd (background_jobs (env_only 1 False) (at_reset 5) two_guilds))
            (snd (background_jobs (env_only 1 False) (at_reset 35)
                   (snd (background_jobs (env_only 1 False) (at_reset 5) two_guilds))))) = 1"
  using reset_at_most_once_per_tick [of two_guilds "env_only 1 False" "at_reset 5" "at_reset 35"]
  by (simp add: eval_defs strftime_at_reset)

lemma strftime_noon: "strftime_HM noon = ''12:00''"
  by (simp add: strftime_HM_def noon_def two_digits_def digit_def)

text \<open>
  C4. Every tick schedules the next one, also when its work raised. No exception leaves
  \<^verbatim>\<open>background_jobs\<close>: whatever the \<^verbatim>\<open>try\<close> block raised (the lookup, the
  reset or a \<^verbatim>\<open>create_task\<close>) is logged. The tick appends its events and then
  starts exactly one timer, so a chain of ticks never stops: every timer of the list runs
  its tick, whatever the ticks before it found. A poll that failed is tried again: when
  a tick whose counter is a multiple of 5 is followed by four more, the tick after those
  hands a poll to the event loop, provided tournaments are enabled and its own
  \<^verbatim>\<open>try\<close> block runs through; what the first tick did does not matter.
\<close>

theorem next_tick_always_scheduled:
  "fst (background_jobs ev now s) = None \<and>
   (\<exists>w. trace (snd (background_jobs ev now s)) = trace s @ w @ [Timer_start] \<and>
        Timer_start \<notin> set w \<and>
        (\<forall>e. fst (try_block ev now s) = Some e \<longrightarrow> Log_error e \<in> set w)) \<and>
   timers (snd (background_jobs ev now s)) = timers s + 1 \<and>
   ticks_run fired s = length fired \<and>
   (job_counter s mod 5 = 0 \<and> length fired = 4 \<and> INHOUSE_BOT_TOURNAMENTS ev' \<and>
    fst (try_block ev' now' (run_ticks fired (snd (background_jobs ev now s)))) = None \<longrightarrow>
      polls (new_events (run_ticks fired (snd (background_jobs ev now s)))
               (snd (background_jobs ev' now'
                      (run_ticks fired (snd (background_jobs ev now s)))))) \<noteq> [])"
proof -
  have tr: "\<exists>w. trace (snd (background_jobs ev now s)) = trace s @ w @ [Timer_start] \<and>
        Timer_start \<notin> set w \<and>
        (\<forall>e. fst (try_block ev now s) = Some e \<longrightarrow> Log_error e \<in> set w)"
    using timer_not_in_work [of ev now s] background_jobs_trace [of ev now s]
      try_block_logged [of ev now s] by blast
  have cnt: "job_counter (run_ticks fired (snd (background_jobs ev now s))) =
      job_counter s + 1 + int (length fired)"
    by (simp add: run_ticks_counter background_jobs_counter)
  have retry: "job_counter s mod 5 = 0 \<and> length fired = 4 \<and> INHOUSE_BOT_TOURNAMENTS ev' \<and>
    fst (try_block ev' now' (run_ticks fired (snd (background_jobs ev now s)))) = None \<longrightarrow>
      polls (new_events (run_ticks fired (snd (background_jobs ev now s)))
               (snd (background_jobs ev' now'
                      (run_ticks fired (snd (background_jobs ev now s)))))) \<noteq> []"
  proof
    assume h: "job_counter s mod 5 = 0 \<and> length fired = 4 \<and> INHOUSE_BOT_TOURNAMENTS ev' \<and>
      fst (try_block ev' now' (run_ticks fired (snd (background_jobs ev now s)))) = None"
    then have "job_counter (run_ticks fired (snd (background_jobs ev now s))) =
        job_counter s + 5"
      using cnt by simp
    with h have "job_counter (run_ticks fired (snd (background_jobs ev now s))) mod 5 = 0"
      by simp
    with h show "polls (new_events (run_ticks fired (snd (background_jobs ev now s)))
               (snd (background_jobs ev' now'
                      (run_ticks fired (snd (background_jobs ev now s)))))) \<noteq> []"
      by (simp add: polls_tick)
  qed
  from tr retry show ?thesis
    by (simp add: background_jobs_fst timers_tick ticks_run_all)
qed

lemma run_ticks_guilds: "guilds (run_ticks fired s) = guilds s"
  by (induction fired s rule: run_ticks.induct)
    (simp_all add: Let_def timers_timer_fires timer_fires_def background_jobs_guilds guilds_emit)

theorem next_tick_always_scheduled_witness:
  "fst (try_block env_reset_fails (at_reset 5) two_guilds) = Some (Failure ''db down'') \<and>
   polls (new_events two_guilds
            (snd (background_jobs env_reset_fails (at_reset 5) two_guilds))) = [] \<and>
   job_counter two_guilds mod 5 = 0 \<and> length four_ticks = 4 \<and>
   INHOUSE_BOT_TOURNAMENTS (env_only 1 True) \<and>
   fst (try_block (env_only 1 True) noon
          (run_ticks four_ticks
             (snd (background_jobs env_reset_fails (at_reset 5) two_guilds)))) = None \<and>
   polls (new_events
            (run_ticks four_ticks
               (snd (background_jobs env_reset_fails (at_reset 5) two_guilds)))
            (snd (background_jobs (env_only 1 True) noon
                   (run_ticks four_ticks
                      (snd (background_jobs env_reset_fails (at_reset 5) two_guilds)))))) \<noteq> []"
proof -
  have a: "fst (try_block env_reset_fails (at_reset 5) two_guilds) = Some (Failure ''db down'')"
    by (simp add: eval_defs strftime_at_reset)
  have b: "polls (new_events two_guilds
            (snd (background_jobs env_reset_fails (at_reset 5) two_guilds))) = []"
    by (simp add: eval_defs strftime_at_reset)
  have c: "job_counter two_guilds mod 5 = 0" by (simp add: two_guilds_def)
  have d: "length four_ticks = 4" by (simp add: four_ticks_def)
  have e: "INHOUSE_BOT_TOURNAMENTS (env_only 1 True)" by (simp add: env_only_def)
  have g: "guilds (run_ticks four_ticks
             (snd (background_jobs env_reset_fails (at_reset 5) two_guilds))) = [1, 2]"
    by (simp add: run_ticks_guilds background_jobs_guilds two_guilds_def)
  have f: "fst (try_block (env_only 1 True) noon
          (run_ticks four_ticks
             (snd (background_jobs env_reset_fails (at_reset 5) two_guilds)))) = None"
    by (simp add: try_block_runs_through runs_through_def queue_reset_config_def g
        env_only_def strftime_noon)
  from next_tick_always_scheduled [of env_reset_fails "at_reset 5" two_guilds four_ticks
      "env_only 1 True" noon] a b c d e f
  show ?thesis by simp
qed

text \<open>
  C5, as stated: on every Nth tick the result source is polled. With tournaments
  switched off, the tick with counter 0 hands no poll to the loop.
\<close>

theorem no_poll_when_tournaments_off:
  "job_counter two_guilds mod 5 = 0 \<and>
   polls (new_events two_guilds
     (snd (background_jobs (env_only 1 False) (at_reset 5) two_guilds))) = []"
  by (simp add: eval_defs strftime_at_reset)

text \<open>
  C5, amended: a tick hands a \<^verbatim>\<open>tournament_check\<close> task to the event loop exactly
  when tournaments are enabled, the \<^verbatim>\<open>try\<close> block of the tick did not raise and
  the counter is a multiple of 5. Nothing is said about the servers the task is for.
\<close>

theorem poll_every_fifth_tick:
  "(polls (new_events s (snd (background_jobs ev now s))) \<noteq> []) =
     (INHOUSE_BOT_TOURNAMENTS ev \<and> fst (try_block ev now s) = None \<and>
      job_counter s mod 5 = 0)"
  by (rule polls_tick)

text \<open>
  C9, as stated: the first tick, with counter 0, performs a poll. With tournaments
  enabled and a bot that is in no guild, the first tick raises IndexError before the poll:
  the counter goes to 1 and no poll was handed over.
\<close>

theorem first_tick_without_poll:
  "job_counter no_guilds = 0 \<and> INHOUSE_BOT_TOURNAMENTS (env_only 1 True) \<and>
   job_counter (snd (background_jobs (env_only 1 True) (at_reset 5) no_guilds)) = 1 \<and>
   polls (new_events no_guilds
     (snd (background_jobs (env_only 1 True) (at_reset 5) no_guilds))) = []"
  by (simp add: eval_defs strftime_at_reset)

text \<open>
  C9, amended: the counter goes up by exactly one on every tick, whether or not the work
  raised, so after any chain of ticks it has grown by their number; and the first tick
  (counter 0) hands over a poll when tournaments are enabled and its \<^verbatim>\<open>try\<close>
  block does not raise.
\<close>

theorem counter_incremented_every_tick:
  "job_counter (snd (background_jobs ev now s)) = job_counter s + 1 \<and>
   job_counter (run_ticks fired s) = job_counter s + int (length fired) \<and>
   (job_counter s = 0 \<and> INHOUSE_BOT_TOURNAMENTS ev \<and> fst (try_block ev now s) = None \<longrightarrow>
      polls (new_events s (snd (background_jobs ev now s))) \<noteq> [])"
  by (simp add: background_jobs_counter run_ticks_counter polls_tick)

theorem counter_incremented_every_tick_witness:
  "job_counter two_guilds = 0 \<and> INHOUSE_BOT_TOURNAMENTS (env_only 1 True) \<and>
   fst (try_block (env_only 1 True) (at_reset 5) two_guilds) = None \<and>
   job_counter (snd (background_jobs (env_only 1 True) (at_reset 5) two_guilds)) = 1 \<and>
   polls (new_events two_guilds
     (snd (background_jobs (env_only 1 True) (at_reset 5) two_guilds))) \<noteq> []"
  using counter_incremented_every_tick [of "env_only 1 True" "at_reset 5" two_guilds "[]"]
  by (simp add: try_block_runs_through runs_through_def queue_reset_config_def
      two_guilds_def env_only_def)

subsection \<open>Startup\<close>

lemma cancel_check_status:
  "rc_status (cancel_check rc) = (if rc_status rc = Pending then Cancelled else rc_status rc)"
  by (simp add: cancel_check_def)

lemma no_pending_after_cancel:
  "Pending \<notin> rc_status ` set (ready_checks (cancel_all_ready_checks g))"
  by (auto simp: cancel_all_ready_checks_def cancel_check_def)

lemmas ready_defs = on_ready_def and_then_def call_cancel_all_ready_checks_def await_def

lemma on_ready_cancel_raises:
  "cancel_all_ready_checks_raises ev = Some e \<Longrightarrow>
     on_ready ev now s = (Some e, emit (Direct Cancel_all_ready_checks) (emit Log_info s))"
  by (simp add: ready_defs Let_def)

lemma on_ready_queue_update_raises:
  "cancel_all_ready_checks_raises ev = None \<Longrightarrow>
   await_raises ev (Update_queue_channels None) = Some e \<Longrightarrow>
     on_ready ev now s =
       (Some e, emit (Await (Update_queue_channels None))
          ((emit (Direct Cancel_all_ready_checks) (emit Log_info s))
             \<lparr>queue := cancel_all_ready_checks (queue s)\<rparr>))"
  by (simp add: ready_defs emit_def Let_def)

lemma on_ready_ranking_update_raises:
  "cancel_all_ready_checks_raises ev = None \<Longrightarrow>
   await_raises ev (Update_queue_channels None) = None \<Longrightarrow>
   await_raises ev (Update_ranking_channels None) = Some e \<Longrightarrow>
     on_ready ev now s = (Some e, before_first_tick s)"
  by (simp add: ready_defs emit_def before_first_tick_def Let_def)

lemma on_ready_runs:
  "cancel_all_ready_checks_raises ev = None \<Longrightarrow>
   await_raises ev (Update_queue_channels None) = None \<Longrightarrow>
   await_raises ev (Update_ranking_channels None) = None \<Longrightarrow>
     on_ready ev now s = background_jobs ev now (before_first_tick s)"
  by (simp add: ready_defs emit_def before_first_tick_def Let_def)

lemma on_ready_fst: "(fst (on_ready ev now s) = None) = on_ready_ok ev"
  by (cases "cancel_all_ready_checks_raises ev"; cases "await_raises ev (Update_queue_channels None)";
      cases "await_raises ev (Update_ranking_channels None)")
    (simp_all add: on_ready_ok_def on_ready_cancel_raises on_ready_queue_update_raises
      on_ready_ranking_update_raises on_ready_runs background_jobs_fst)

lemma on_ready_trace:
  "\<exists>rest. trace (snd (on_ready ev now s)) =
       trace s @ Log_info # Direct Cancel_all_ready_checks # rest \<and>
     Direct Cancel_all_ready_checks \<notin> set rest \<and>
     Timer_fired \<notin> set rest \<and>
     (cancel_all_ready_checks_raises ev \<noteq> None \<longrightarrow> rest = []) \<and>
     (if on_ready_ok ev then \<exists>w. rest = w @ [Timer_start] \<and> Timer_start \<notin> set w
      else Timer_start \<notin> set rest)"
proof (cases "cancel_all_ready_checks_raises ev")
  case (Some e)
  then show ?thesis
    by (simp add: on_ready_cancel_raises emit_def on_ready_ok_def)
next
  case c: None
  show ?thesis
  proof (cases "await_raises ev (Update_queue_channels None)")
    case (Some e)
    with c show ?thesis
      by (simp add: on_ready_queue_update_raises emit_def on_ready_ok_def)
  next
    case q: None
    show ?thesis
    proof (cases "await_raises ev (Update_ranking_channels None)")
      case (Some e)
      with c q show ?thesis
        by (simp add: on_ready_ranking_update_raises emit_def on_ready_ok_def
            before_first_tick_def)
    next
      case r: None
      have ok: "on_ready_ok ev" using c q r by (simp add: on_ready_ok_def)
      have tr: "trace (snd (on_ready ev now s)) =
          trace s @ Log_info # Direct Cancel_all_ready_checks #
            ([Await (Update_queue_channels None), Await (Update_ranking_channels None)] @
             tick_work ev now (before_first_tick s)) @ [Timer_start]"
        using c q r by (simp add: on_ready_runs background_jobs_trace)
          (simp add: before_first_tick_def emit_def)
      show ?thesis
        using tr ok c cancel_not_in_work [of ev now "before_first_tick s"]
          timer_not_in_work [of ev now "before_first_tick s"]
          fired_not_in_work [of ev now "before_first_tick s"]
        by (intro exI [of _ "([Await (Update_queue_channels None),
              Await (Update_ranking_channels None)] @
             tick_work ev now (before_first_tick s)) @ [Timer_start]"]) auto
    qed
  qed
qed

lemma on_ready_ready_checks:
  "cancel_all_ready_checks_raises ev = None \<Longrightarrow>
     ready_checks (queue (snd (on_ready ev now s))) =
     ready_checks (cancel_all_ready_checks (queue s))"
  by (cases "await_raises ev (Update_queue_channels None)";
      cases "await_raises ev (Update_ranking_channels None)")
    (simp_all add: on_ready_queue_update_raises on_ready_ranking_update_raises on_ready_runs
      background_jobs_ready_checks before_first_tick_def emit_def)

lemma pending_append:
  "trace s' = trace s @ evs \<Longrightarrow>
     pending_timers s' = pending_timers s +
       int (length (filter (\<lambda>e. e = Timer_start) evs)) -
       int (length (filter (\<lambda>e. e = Timer_fired) evs))"
  by (simp add: pending_timers_def timers_def timers_fired_def)

text \<open>
  C6, as stated: after \<^verbatim>\<open>on_ready\<close> no timer of a previous session survives.
  The handler starts the scheduler and stops nothing: run a second time, on a reconnect,
  before the timer of the first session has fired, it leaves two timers pending, the one
  of the previous session among them.
\<close>

theorem scheduler_timer_survives_reconnect:
  "pending_timers two_guilds = 0 \<and>
   pending_timers (snd (on_ready (env_only 1 True) noon two_guilds)) = 1 \<and>
   pending_timers (snd (on_ready (env_only 1 True) noon
                          (snd (on_ready (env_only 1 True) noon two_guilds)))) = 2"
  by (simp add: on_ready_def call_cancel_all_ready_checks_def await_def eval_defs
      strftime_noon pending_timers_def timers_fired_def cancel_all_ready_checks_def)

text \<open>
  C6, amended: \<^verbatim>\<open>on_ready\<close> cancels the ready-checks first. After the log line its
  first act is the call of \<^verbatim>\<open>cancel_all_ready_checks\<close>, made once; the channel
  updates and the scheduler come after it, and not at all when that call raises. When it
  returns, every check that was pending is cancelled, the others keep their status, and no
  pending check is left when the handler ends. The scheduler is started exactly when
  neither that call nor a channel update raised. The handler stops no timer: the timers
  pending before it are still pending after it, with one more when the scheduler started.
\<close>

theorem on_ready_cancels_before_rest:
  "(\<exists>rest. trace (snd (on_ready ev now s)) =
        trace s @ Log_info # Direct Cancel_all_ready_checks # rest \<and>
      Direct Cancel_all_ready_checks \<notin> set rest \<and>
      (cancel_all_ready_checks_raises ev \<noteq> None \<longrightarrow> rest = []) \<and>
      (Timer_start \<in> set rest) = (fst (on_ready ev now s) = None)) \<and>
   (cancel_all_ready_checks_raises ev = None \<longrightarrow>
      map rc_status (ready_checks (queue (snd (on_ready ev now s)))) =
        map (\<lambda>rc. if rc_status rc = Pending then Cancelled else rc_status rc)
          (ready_checks (queue s)) \<and>
      Pending \<notin> rc_status ` set (ready_checks (queue (snd (on_ready ev now s))))) \<and>
   pending_timers (snd (on_ready ev now s)) =
     pending_timers s + (if fst (on_ready ev now s) = None then 1 else 0)"
proof -
  obtain rest where tr: "trace (snd (on_ready ev now s)) =
        trace s @ Log_info # Direct Cancel_all_ready_checks # rest"
    and nc: "Direct Cancel_all_ready_checks \<notin> set rest"
    and nf: "Timer_fired \<notin> set rest"
    and cr: "cancel_all_ready_checks_raises ev \<noteq> None \<longrightarrow> rest = []"
    and tm: "if on_ready_ok ev then \<exists>w. rest = w @ [Timer_start] \<and> Timer_start \<notin> set w
             else Timer_start \<notin> set rest"
    using on_ready_trace [of ev now s] by blast
  have started: "(Timer_start \<in> set rest) = (fst (on_ready ev now s) = None)"
    using tm by (auto simp: on_ready_fst split: if_splits)
  have fired: "filter (\<lambda>e. e = Timer_fired) rest = []"
    using nf by (auto simp: filter_empty_conv)
  have count: "length (filter (\<lambda>e. e = Timer_start) rest) =
      (if fst (on_ready ev now s) = None then 1 else 0)"
  proof (cases "on_ready_ok ev")
    case True
    then obtain w where "rest = w @ [Timer_start]" "Timer_start \<notin> set w" using tm by auto
    then have "filter (\<lambda>e. e = Timer_start) rest = [Timer_start]"
      by (auto simp: filter_empty_conv)
    with True show ?thesis by (simp add: on_ready_fst)
  next
    case False
    then have "filter (\<lambda>e. e = Timer_start) rest = []"
      using tm by (auto simp: filter_empty_conv)
    with False show ?thesis by (simp add: on_ready_fst)
  qed
  have pend: "pending_timers (snd (on_ready ev now s)) =
     pending_timers s + (if fst (on_ready ev now s) = None then 1 else 0)"
    using pending_append [OF tr] fired count by simp
  have first: "\<exists>rest. trace (snd (on_ready ev now s)) =
        trace s @ Log_info # Direct Cancel_all_ready_checks # rest \<and>
      Direct Cancel_all_ready_checks \<notin> set rest \<and>
      (cancel_all_ready_checks_raises ev \<noteq> None \<longrightarrow> rest = []) \<and>
      (Timer_start \<in> set rest) = (fst (on_ready ev now s) = None)"
    using tr nc cr started by (intro exI [of _ rest]) simp
  have second: "cancel_all_ready_checks_raises ev = None \<longrightarrow>
      map rc_status (ready_checks (queue (snd (on_ready ev now s)))) =
        map (\<lambda>rc. if rc_status rc = Pending then Cancelled else rc_status rc)
          (ready_checks (queue s)) \<and>
      Pending \<notin> rc_status ` set (ready_checks (queue (snd (on_ready ev now s))))"
  proof
    assume c: "cancel_all_ready_checks_raises ev = None"
    have "map rc_status (ready_checks (cancel_all_ready_checks (queue s))) =
        map (\<lambda>rc. if rc_status rc = Pending then Cancelled else rc_status rc)
          (ready_checks (queue s))"
      by (simp add: cancel_all_ready_checks_def cancel_check_status)
    then show "map rc_status (ready_checks (queue (snd (on_ready ev now s)))) =
        map (\<lambda>rc. if rc_status rc = Pending then Cancelled else rc_status rc)
          (ready_checks (queue s)) \<and>
      Pending \<notin> rc_status ` set (ready_checks (queue (snd (on_ready ev now s))))"
      using no_pending_after_cancel [of "queue s"] by (simp add: on_ready_ready_checks [OF c])
  qed
  from first second pend show ?thesis by blast
qed

theorem on_ready_cancels_before_rest_witness:
  "cancel_all_ready_checks_raises (env_only 1 True) = None \<and>
   map rc_status (ready_checks (queue barred_bot)) = [Pending] \<and>
   map rc_status (ready_checks (queue (snd (on_ready (env_only 1 True) noon barred_bot)))) =
     [Cancelled] \<and>
   fst (on_ready (env_only 1 True) noon barred_bot) = None \<and>
   pending_timers (snd (on_ready (env_only 1 True) noon barred_bot)) = 1"
proof -
  have a: "cancel_all_ready_checks_raises (env_only 1 True) = None"
    by (simp add: env_only_def)
  have b: "map rc_status (ready_checks (queue barred_bot)) = [Pending]"
    by (simp add: barred_bot_def barred_store_def)
  have c: "fst (on_ready (env_only 1 True) noon barred_bot) = None"
    by (simp add: on_ready_fst on_ready_ok_def env_only_def)
  have d: "pending_timers barred_bot = 0"
    by (simp add: pending_timers_def timers_def timers_fired_def barred_bot_def)
  from on_ready_cancels_before_rest [of "env_only 1 True" noon barred_bot] a b c d
  show ?thesis by (simp add: barred_bot_def barred_store_def)
qed

subsection \<open>Failures of queue commands and the error handler\<close>


text \<open>
  C7. A duo request with the same role for both players fails with SameRolesForDuo,
  whatever the store holds and in whichever order the other checks run; the command leaves
  the bot's state as it was and the handler answers the caller with one message, "Duos
  must have different roles". Should the exception arrive wrapped in a
  CommandInvokeError instead, the caller still gets one message.
\<close>

theorem same_roles_duo_rejected:
  "join_duo ord sid pa r pb r (queue s) = Inl SameRolesForDuo \<and>
   run_command ev cx (join_duo ord sid pa r pb r) s =
     (s, [send ''Duos must have different roles'']) \<and>
   length (sent (on_command_error ev cx (CommandInvokeError SameRolesForDuo))) = 1"
  by (simp add: join_duo_def run_command_def deliver_def sent_def send_def)




text \<open>
  C10. For a ConversionError the handler does nothing at all: no message, no log line.
  Every other error it receives gets exactly one message.
\<close>

theorem conversion_error_sends_nothing:
  "on_command_error ev cx (Raised ConversionError) = [] \<and>
   length (sent (on_command_error ev cx e)) = (if e = Raised ConversionError then 0 else 1)"
proof (cases e)
  case (Raised c)
  then show ?thesis by (cases c) (simp_all add: sent_def send_def)
next
  case (CommandInvokeError c)
  then show ?thesis by (simp add: sent_def send_def)
qed

end
